theory Spec2Isabelle
  imports Main "HOL-Library.Word"
begin

unbundle bit_operations_syntax

section \<open>The USB transport as the bridge sees it\<close>

text \<open>
  The bridge of \<^verbatim>\<open>android_open_accessory_bridge.py\<close> talks to the pyusb library:
  \<^verbatim>\<open>usb.core.find\<close>, \<^verbatim>\<open>device.ctrl_transfer\<close>, \<^verbatim>\<open>device.reset\<close>,
  \<^verbatim>\<open>usb.util.dispose_resources\<close>, \<^verbatim>\<open>endpoint.write\<close>, \<^verbatim>\<open>endpoint.read\<close> and
  \<^verbatim>\<open>time.sleep\<close>. The library is not part of the program, so it is a parameter of the
  model: a deterministic environment that answers each call from the history of the calls
  made so far. The state the program threads through is that history, a list of events,
  each holding the call and its answer.

  Exceptions are values. \<open>USBError\<close> carries the \<^verbatim>\<open>errno\<close> attribute, which is
  \<^verbatim>\<open>None\<close> for the errors the bridge raises itself, and its message.

  What is taken from pyusb without proof: \<^verbatim>\<open>usb.core.find\<close> returns a device or
  \<^verbatim>\<open>None\<close>; \<^verbatim>\<open>dispose_resources\<close> and \<^verbatim>\<open>time.sleep\<close> return; a device and an
  endpoint are true where Python tests their truth, having neither \<^verbatim>\<open>__bool__\<close> nor
  \<^verbatim>\<open>__len__\<close>; a control transfer returns an array of bytes when it reads and a count
  when it writes. Byte strings and arrays of unsigned bytes are lists of 8-bit words.
\<close>

type_synonym byte = "8 word"

datatype device = Device int

datatype endpoint = Endpoint int

datatype exn =
    AssertionError
  | IndexError
  | USBError (errno: "int option") (strerror: string)

datatype event =
    EvFind int int "device option"
  | EvCtrlIn device int int int int "exn + byte list"
  | EvCtrlOut device int int int "string option" "exn + int"
  | EvReset device "exn + unit"
  | EvDispose device
  | EvSleep int
  | EvWrite endpoint "byte list" "int option" "exn + int"
  | EvRead endpoint int "int option" "exn + byte list"

type_synonym trace = "event list"

text \<open>
  \<open>core_find tr idVendor idProduct\<close> is \<^verbatim>\<open>usb.core.find\<close>: the device or \<^verbatim>\<open>None\<close>.
  \<open>ctrl_transfer_in tr dev bmRequestType bRequest wIndex wLength\<close> is a control read, which
  returns the bytes read; \<open>ctrl_transfer_out tr dev bmRequestType bRequest wIndex data\<close> is a
  control write, which returns the number of bytes written. \<open>ep_write tr ep data timeout\<close>
  and \<open>ep_read tr ep size timeout\<close> are the bulk transfers of an endpoint. All but
  \<open>core_find\<close> may raise.
\<close>

record usb =
  core_find :: "trace \<Rightarrow> int \<Rightarrow> int \<Rightarrow> device option"
  ctrl_transfer_in :: "trace \<Rightarrow> device \<Rightarrow> int \<Rightarrow> int \<Rightarrow> int \<Rightarrow> int \<Rightarrow> exn + byte list"
  ctrl_transfer_out :: "trace \<Rightarrow> device \<Rightarrow> int \<Rightarrow> int \<Rightarrow> int \<Rightarrow> string option \<Rightarrow> exn + int"
  reset :: "trace \<Rightarrow> device \<Rightarrow> exn + unit"
  ep_write :: "trace \<Rightarrow> endpoint \<Rightarrow> byte list \<Rightarrow> int option \<Rightarrow> exn + int"
  ep_read :: "trace \<Rightarrow> endpoint \<Rightarrow> int \<Rightarrow> int option \<Rightarrow> exn + byte list"

section \<open>The bridge object\<close>

record bridge =
  vendor_id :: int
  unconfigured_product_id :: int
  configured_product_id :: int
  device :: "device option"
  endpoint_out :: "endpoint option"
  endpoint_in :: "endpoint option"

text \<open>\<^verbatim>\<open>e.errno == 110\<close> in a handler that catches \<^verbatim>\<open>usb.core.USBError\<close> only.\<close>

fun timed_out :: "exn \<Rightarrow> bool" where
  "timed_out (USBError en msg) = (en = Some 110)"
| "timed_out AssertionError = False"
| "timed_out IndexError = False"

section \<open>Device detection\<close>

text \<open>
  \<^verbatim>\<open>_detectDevice(self, attempts_left=5)\<close>: both lookups are made, the unconfigured one
  first; the configured device is tested first. The recursion counts \<open>attempts_left\<close>
  down and stops at 0, so on a negative count it does not stop by itself: the function is
  partial. (The interpreter would end such a run with a \<^verbatim>\<open>RecursionError\<close> once its stack
  is a thousand calls deep; that limit is not modelled. The class calls the method with
  the default 5 only.)
\<close>

partial_function (option) detectDevice ::
  "usb \<Rightarrow> bridge \<Rightarrow> int \<Rightarrow> trace \<Rightarrow> ((exn + device \<times> bool) \<times> trace) option" where
  "detectDevice env self attempts_left tr =
     (let unconfigured_device =
            core_find env tr (vendor_id self) (unconfigured_product_id self);
          tr1 = tr @ [EvFind (vendor_id self) (unconfigured_product_id self)
                        unconfigured_device];
          configured_device =
            core_find env tr1 (vendor_id self) (configured_product_id self);
          tr2 = tr1 @ [EvFind (vendor_id self) (configured_product_id self)
                         configured_device]
      in case configured_device of
           Some c \<Rightarrow> Some (Inr (c, True), tr2)
         | None \<Rightarrow>
             (case unconfigured_device of
                Some u \<Rightarrow> Some (Inr (u, False), tr2)
              | None \<Rightarrow>
                  if attempts_left \<noteq> 0
                  then detectDevice env self (attempts_left - 1) (tr2 @ [EvSleep 1])
                  else Some (Inl (USBError None ''Device not connected''), tr2)))"

declare detectDevice.simps [code]

section \<open>Accessory negotiation\<close>

text \<open>
  The \<^verbatim>\<open>for i, data in enumerate(...)\<close> loop of \<^verbatim>\<open>_configureAndOpenDevice\<close>: one control
  write of request 52 per field, with the field's position as \<open>wIndex\<close>, and an assertion
  that all of the field was written.
\<close>

fun send_accessory_information ::
  "usb \<Rightarrow> device \<Rightarrow> int \<Rightarrow> string list \<Rightarrow> trace \<Rightarrow> (exn + unit) \<times> trace" where
  "send_accessory_information env dev i [] tr = (Inr (), tr)"
| "send_accessory_information env dev i (data # rest) tr =
     (let r = ctrl_transfer_out env tr dev 0x40 52 i (Some data);
          tr1 = tr @ [EvCtrlOut dev 0x40 52 i (Some data) r]
      in case r of
           Inl e \<Rightarrow> (Inl e, tr1)
         | Inr n \<Rightarrow>
             if n = int (length data)
             then send_accessory_information env dev (i + 1) rest tr1
             else (Inl AssertionError, tr1))"

text \<open>
  The \<^verbatim>\<open>while attempts_left:\<close> loop that waits for the configured device; its counter
  is a local that starts at 5.
\<close>

fun wait_for_configured ::
  "usb \<Rightarrow> bridge \<Rightarrow> nat \<Rightarrow> trace \<Rightarrow> ((exn + device) \<times> trace) option" where
  "wait_for_configured env self 0 tr =
     Some (Inl (USBError None ''Device not configured''), tr)"
| "wait_for_configured env self (Suc attempts_left) tr =
     (case detectDevice env self 5 tr of
        None \<Rightarrow> None
      | Some (Inl e, tr1) \<Rightarrow> Some (Inl e, tr1)
      | Some (Inr (dev, is_configured), tr1) \<Rightarrow>
          if is_configured then Some (Inr dev, tr1)
          else wait_for_configured env self attempts_left (tr1 @ [EvSleep 1]))"

text \<open>The version check \<^verbatim>\<open>len(buf) == 2 and (buf[0] | buf[1] << 8) == 2\<close>.\<close>

definition version_ok :: "byte list \<Rightarrow> bool" where
  "version_ok buf =
     (length buf = 2 \<and> (uint (buf ! 0) OR push_bit 8 (uint (buf ! 1))) = 2)"

text \<open>The branch of \<^verbatim>\<open>_configureAndOpenDevice\<close> for a device that is not configured.\<close>

definition switch_to_accessory ::
  "usb \<Rightarrow> device \<Rightarrow> string list \<Rightarrow> trace \<Rightarrow> (exn + unit) \<times> trace" where
  "switch_to_accessory env dev infos tr =
     (let r = ctrl_transfer_in env tr dev 0xc0 51 0 2;
          tr1 = tr @ [EvCtrlIn dev 0xc0 51 0 2 r]
      in case r of
           Inl e \<Rightarrow> (Inl e, tr1)
         | Inr buf \<Rightarrow>
             if \<not> version_ok buf then (Inl AssertionError, tr1)
             else
               (case send_accessory_information env dev 0 infos tr1 of
                  (Inl e, tr2) \<Rightarrow> (Inl e, tr2)
                | (Inr _, tr2) \<Rightarrow>
                    (let r3 = ctrl_transfer_out env tr2 dev 0x40 53 0 None;
                         tr3 = tr2 @ [EvCtrlOut dev 0x40 53 0 None r3]
                     in case r3 of
                          Inl e \<Rightarrow> (Inl e, tr3)
                        | Inr n \<Rightarrow>
                            if n = 0 then (Inr (), tr3 @ [EvDispose dev])
                            else (Inl AssertionError, tr3))))"

text \<open>The \<^verbatim>\<open>else\<close> branch: \<^verbatim>\<open>device.reset()\<close>, then \<^verbatim>\<open>time.sleep(1)\<close>.\<close>

definition reset_configured :: "usb \<Rightarrow> device \<Rightarrow> trace \<Rightarrow> (exn + unit) \<times> trace" where
  "reset_configured env dev tr =
     (let r = reset env tr dev; tr1 = tr @ [EvReset dev r]
      in case r of
           Inl e \<Rightarrow> (Inl e, tr1)
         | Inr _ \<Rightarrow> (Inr (), tr1 @ [EvSleep 1]))"

definition configureAndOpenDevice ::
  "usb \<Rightarrow> bridge \<Rightarrow> string \<Rightarrow> string \<Rightarrow> string \<Rightarrow> string \<Rightarrow> string \<Rightarrow> string \<Rightarrow> trace
     \<Rightarrow> ((exn + device) \<times> trace) option" where
  "configureAndOpenDevice env self manufacturer model description version uri serial tr =
     (case detectDevice env self 5 tr of
        None \<Rightarrow> None
      | Some (Inl e, tr1) \<Rightarrow> Some (Inl e, tr1)
      | Some (Inr (dev, is_configured), tr1) \<Rightarrow>
          (case (if \<not> is_configured
                 then switch_to_accessory env dev
                        [manufacturer, model, description, version, uri, serial] tr1
                 else reset_configured env dev tr1) of
             (Inl e, tr2) \<Rightarrow> Some (Inl e, tr2)
           | (Inr _, tr2) \<Rightarrow> wait_for_configured env self 5 tr2))"

section \<open>The framed channel\<close>

text \<open>
  The \<^verbatim>\<open>while True:\<close> loop of \<^verbatim>\<open>write\<close>: the header is sent again after each
  timeout, any other error is raised again, and a count other than 2 fails the assertion.
\<close>

partial_function (option) write_header ::
  "usb \<Rightarrow> endpoint \<Rightarrow> byte list \<Rightarrow> int option \<Rightarrow> trace \<Rightarrow> ((exn + unit) \<times> trace) option" where
  "write_header env ep size_bytes timeout tr =
     (let r = ep_write env tr ep size_bytes timeout;
          tr1 = tr @ [EvWrite ep size_bytes timeout r]
      in case r of
           Inl e \<Rightarrow>
             if timed_out e then write_header env ep size_bytes timeout tr1
             else Some (Inl e, tr1)
         | Inr bytes_wrote \<Rightarrow>
             if bytes_wrote = 2 then Some (Inr (), tr1)
             else Some (Inl AssertionError, tr1))"

declare write_header.simps [code]

text \<open>
  \<^verbatim>\<open>[(size & 0x0000ff00) >> 8, (size & 0x000000ff)]\<close> as an array of unsigned bytes
  (\<open>sz\<close> stands for the source's \<^verbatim>\<open>size\<close>, the name of a constant of HOL).
\<close>

definition size_header :: "int \<Rightarrow> byte list" where
  "size_header sz =
     [word_of_int (drop_bit 8 (sz AND 0x0000ff00)), word_of_int (sz AND 0x000000ff)]"

text \<open>
  \<^verbatim>\<open>write\<close> (named \<open>write_data\<close> here, \<open>write\<close> being a command of Isabelle). The
  assertion tests the truth of \<^verbatim>\<open>data\<close>, which an empty byte string does not have.
\<close>

definition write_data ::
  "usb \<Rightarrow> bridge \<Rightarrow> byte list \<Rightarrow> int option \<Rightarrow> trace \<Rightarrow> ((exn + unit) \<times> trace) option" where
  "write_data env self data timeout tr =
     (case (device self, endpoint_out self) of
        (Some dev, Some ep) \<Rightarrow>
          if data = [] then Some (Inl AssertionError, tr)
          else
            (let sz = int (length data);
                 size_bytes = size_header sz
             in case write_header env ep size_bytes timeout tr of
                  None \<Rightarrow> None
                | Some (Inl e, tr1) \<Rightarrow> Some (Inl e, tr1)
                | Some (Inr _, tr1) \<Rightarrow>
                    (let r = ep_write env tr1 ep data timeout;
                         tr2 = tr1 @ [EvWrite ep data timeout r]
                     in case r of
                          Inl e \<Rightarrow> Some (Inl e, tr2)
                        | Inr n \<Rightarrow>
                            if n = sz then Some (Inr (), tr2)
                            else Some (Inl AssertionError, tr2)))
      | _ \<Rightarrow> Some (Inl AssertionError, tr))"

text \<open>
  The handler of \<^verbatim>\<open>read\<close>: a timeout becomes the result \<^verbatim>\<open>None\<close>, any other
  \<open>USBError\<close> is raised again, and an exception of another class is not caught.
\<close>

definition read_except :: "exn \<Rightarrow> exn + byte list option" where
  "read_except e = (if timed_out e then Inr None else Inl e)"

text \<open>
  \<^verbatim>\<open>read\<close>. Indexing a header of fewer than two bytes raises \<open>IndexError\<close>;
  \<^verbatim>\<open>tostring()\<close> gives the bytes of the array read.
\<close>

definition read ::
  "usb \<Rightarrow> bridge \<Rightarrow> int option \<Rightarrow> trace \<Rightarrow> (exn + byte list option) \<times> trace" where
  "read env self timeout tr =
     (case (device self, endpoint_in self) of
        (Some dev, Some ep) \<Rightarrow>
          (let r1 = ep_read env tr ep 2 timeout;
               tr1 = tr @ [EvRead ep 2 timeout r1]
           in case r1 of
                Inl e \<Rightarrow> (read_except e, tr1)
              | Inr size_bytes \<Rightarrow>
                  (case size_bytes of
                     b0 # b1 # _ \<Rightarrow>
                       (let sz = push_bit 8 (uint b0) OR uint b1;
                            r2 = ep_read env tr1 ep sz timeout;
                            tr2 = tr1 @ [EvRead ep sz timeout r2]
                        in case r2 of
                             Inl e \<Rightarrow> (read_except e, tr2)
                           | Inr payload \<Rightarrow> (Inr (Some payload), tr2))
                   | _ \<Rightarrow> (Inl IndexError, tr1)))
      | _ \<Rightarrow> (Inl AssertionError, tr))"

section \<open>Closing the bridge\<close>

text \<open>
  \<^verbatim>\<open>close\<close> writes the two zero bytes with no timeout and does not look at the count
  returned; the three assignments of \<^verbatim>\<open>None\<close> follow \<^verbatim>\<open>dispose_resources\<close>.
\<close>

definition close :: "usb \<Rightarrow> bridge \<Rightarrow> trace \<Rightarrow> (exn + unit) \<times> bridge \<times> trace" where
  "close env self tr =
     (case (device self, endpoint_out self) of
        (Some dev, Some ep) \<Rightarrow>
          (let r = ep_write env tr ep [0, 0] None;
               tr1 = tr @ [EvWrite ep [0, 0] None r]
           in case r of
                Inl e \<Rightarrow> (Inl e, self, tr1)
              | Inr _ \<Rightarrow>
                  (Inr (),
                   self\<lparr>device := None, endpoint_out := None, endpoint_in := None\<rparr>,
                   tr1 @ [EvDispose dev]))
      | _ \<Rightarrow> (Inl AssertionError, self, tr))"

section \<open>What is observed of a run\<close>

text \<open>
  The bytes a run has put on the bulk OUT pipe: of each bulk write that returned, as many
  bytes as the transport reported. A write that raised counts for nothing.
\<close>

fun wire_event :: "event \<Rightarrow> byte list" where
  "wire_event (EvWrite ep bs timeout (Inr n)) = take (nat n) bs"
| "wire_event _ = []"

definition wire_of :: "trace \<Rightarrow> byte list" where
  "wire_of tr = concat (map wire_event tr)"

text \<open>The number of bytes the bulk reads of a run have taken from the IN pipe.\<close>

fun received_event :: "event \<Rightarrow> nat" where
  "received_event (EvRead ep n timeout (Inr bs)) = length bs"
| "received_event _ = 0"

definition received :: "trace \<Rightarrow> nat" where
  "received tr = sum_list (map received_event tr)"

fun is_ctrl_transfer :: "event \<Rightarrow> bool" where
  "is_ctrl_transfer (EvCtrlIn dev rt rq i n r) = True"
| "is_ctrl_transfer (EvCtrlOut dev rt rq i d r) = True"
| "is_ctrl_transfer _ = False"

text \<open>
  The events of \<open>n\<close> failed attempts of \<open>detectDevice\<close> and of the last, which raises:
  two lookups each, and a sleep of one second after each but the last.
\<close>

fun missed_attempts :: "bridge \<Rightarrow> nat \<Rightarrow> trace" where
  "missed_attempts self 0 =
     [EvFind (vendor_id self) (unconfigured_product_id self) None,
      EvFind (vendor_id self) (configured_product_id self) None]"
| "missed_attempts self (Suc n) =
     [EvFind (vendor_id self) (unconfigured_product_id self) None,
      EvFind (vendor_id self) (configured_product_id self) None,
      EvSleep 1] @ missed_attempts self n"

section \<open>Concrete transports and bridges\<close>

text \<open>
  A transport with no device on the bus, on which every transfer is accepted in full, the
  protocol version read is 2 and no bulk data arrives. The other transports used below
  are updates of it.
\<close>

definition quiet_usb :: usb where
  "quiet_usb =
     \<lparr>core_find = (\<lambda>tr v p. None),
      ctrl_transfer_in = (\<lambda>tr dev rt rq i n. Inr [2, 0]),
      ctrl_transfer_out =
        (\<lambda>tr dev rt rq i d. Inr (case d of None \<Rightarrow> 0 | Some s \<Rightarrow> int (length s))),
      reset = (\<lambda>tr dev. Inr ()),
      ep_write = (\<lambda>tr ep bs timeout. Inr (int (length bs))),
      ep_read = (\<lambda>tr ep n timeout. Inl (USBError (Some 110) ''Operation timed out''))\<rparr>"

text \<open>
  The transport of a peer to which the bytes \<open>wire\<close> are on their way: each bulk read
  takes the next bytes, as many as asked for while there are that many.
\<close>

definition peer_usb :: "byte list \<Rightarrow> usb" where
  "peer_usb wire =
     quiet_usb\<lparr>ep_read := (\<lambda>tr ep n timeout. Inr (take (nat n) (drop (received tr) wire)))\<rparr>"

text \<open>The identifiers \<^verbatim>\<open>NEXUS4_USB_IDS\<close>, in a bridge before and after its construction.\<close>

definition nexus4_unopened :: bridge where
  "nexus4_unopened =
     \<lparr>vendor_id = 0x18d1, unconfigured_product_id = 0x4ee2, configured_product_id = 0x2d01,
      device = None, endpoint_out = None, endpoint_in = None\<rparr>"

definition nexus4_open :: bridge where
  "nexus4_open =
     nexus4_unopened\<lparr>device := Some (Device 1), endpoint_out := Some (Endpoint 1),
       endpoint_in := Some (Endpoint 129)\<rparr>"

text \<open>
  A phone on the bus under the identifiers \<^verbatim>\<open>NEXUS4_USB_IDS\<close>: it is found under the
  unconfigured product id until a control write of request 53 has returned 0, and under
  the configured product id from then on.
\<close>

fun is_switch_command :: "event \<Rightarrow> bool" where
  "is_switch_command (EvCtrlOut dev rt rq i d (Inr n)) = (rq = 53 \<and> n = 0)"
| "is_switch_command _ = False"

definition nexus4_usb :: usb where
  "nexus4_usb =
     quiet_usb\<lparr>core_find :=
       (\<lambda>tr v p.
          if v = 0x18d1 \<and> p = 0x4ee2 \<and> \<not> list_ex is_switch_command tr then Some (Device 1)
          else if v = 0x18d1 \<and> p = 0x2d01 \<and> list_ex is_switch_command tr then Some (Device 2)
          else None)\<rparr>"

section \<open>Device detection: the claims\<close>

lemma detect_configured:
  assumes "core_find env tr (vendor_id self) (unconfigured_product_id self) = u"
    and "core_find env (tr @ [EvFind (vendor_id self) (unconfigured_product_id self) u])
           (vendor_id self) (configured_product_id self) = Some c"
  shows "detectDevice env self a tr =
           Some (Inr (c, True),
                 tr @ [EvFind (vendor_id self) (unconfigured_product_id self) u,
                       EvFind (vendor_id self) (configured_product_id self) (Some c)])"
  by (subst detectDevice.simps) (simp add: assms Let_def)

lemma detect_unconfigured:
  assumes "core_find env tr (vendor_id self) (unconfigured_product_id self) = Some u"
    and "core_find env (tr @ [EvFind (vendor_id self) (unconfigured_product_id self) (Some u)])
           (vendor_id self) (configured_product_id self) = None"
  shows "detectDevice env self a tr =
           Some (Inr (u, False),
                 tr @ [EvFind (vendor_id self) (unconfigured_product_id self) (Some u),
                       EvFind (vendor_id self) (configured_product_id self) None])"
  by (subst detectDevice.simps) (simp add: assms Let_def)

lemma detect_retry:
  assumes "core_find env tr (vendor_id self) (unconfigured_product_id self) = None"
    and "core_find env (tr @ [EvFind (vendor_id self) (unconfigured_product_id self) None])
           (vendor_id self) (configured_product_id self) = None"
    and "a \<noteq> 0"
  shows "detectDevice env self a tr =
           detectDevice env self (a - 1)
             (tr @ [EvFind (vendor_id self) (unconfigured_product_id self) None,
                    EvFind (vendor_id self) (configured_product_id self) None,
                    EvSleep 1])"
  by (subst detectDevice.simps) (simp add: assms Let_def)

lemma detect_give_up:
  assumes "core_find env tr (vendor_id self) (unconfigured_product_id self) = None"
    and "core_find env (tr @ [EvFind (vendor_id self) (unconfigured_product_id self) None])
           (vendor_id self) (configured_product_id self) = None"
  shows "detectDevice env self 0 tr =
           Some (Inl (USBError None ''Device not connected''),
                 tr @ [EvFind (vendor_id self) (unconfigured_product_id self) None,
                       EvFind (vendor_id self) (configured_product_id self) None])"
  by (subst detectDevice.simps) (simp add: assms Let_def)

lemma detect_misses:
  assumes u: "\<And>tr'. core_find env tr' (vendor_id self) (unconfigured_product_id self) = None"
    and c: "\<And>tr'. core_find env tr' (vendor_id self) (configured_product_id self) = None"
  shows "detectDevice env self (int n) tr =
           Some (Inl (USBError None ''Device not connected''), tr @ missed_attempts self n)"
proof (induction n arbitrary: tr)
  case 0
  show ?case using detect_give_up [OF u c, of tr] by simp
next
  case (Suc n)
  have "detectDevice env self (int (Suc n)) tr =
          detectDevice env self (int n)
            (tr @ [EvFind (vendor_id self) (unconfigured_product_id self) None,
                   EvFind (vendor_id self) (configured_product_id self) None,
                   EvSleep 1])"
    using detect_retry [OF u c, of "int (Suc n)" tr] by simp
  then show ?case by (simp add: Suc.IH)
qed

lemma count_sleeps: "count_list (missed_attempts self n) (EvSleep 1) = n"
  by (induction n) simp_all

lemma length_missed_attempts: "length (missed_attempts self n) = 3 * n + 2"
  by (induction n) simp_all

text \<open>
  With a negative number of attempts left and no device on the bus, the count never
  reaches 0 and the recursion does not stop.
\<close>

lemma detect_negative_never:
  assumes u: "\<And>tr'. core_find env tr' (vendor_id self) (unconfigured_product_id self) = None"
    and c: "\<And>tr'. core_find env tr' (vendor_id self) (configured_product_id self) = None"
    and neg: "attempts_left < 0"
  shows "detectDevice env self attempts_left tr = None"
proof (rule ccontr)
  assume "detectDevice env self attempts_left tr \<noteq> None"
  then obtain y where y: "detectDevice env self attempts_left tr = Some y" by blast
  have "\<not> ((\<forall>tr'. core_find env tr' (vendor_id self) (unconfigured_product_id self) = None)
          \<and> (\<forall>tr'. core_find env tr' (vendor_id self) (configured_product_id self) = None)
          \<and> attempts_left < 0)"
  proof (rule detectDevice.raw_induct
      [where P = "\<lambda>env self a tr y.
          \<not> ((\<forall>tr'. core_find env tr' (vendor_id self) (unconfigured_product_id self) = None)
             \<and> (\<forall>tr'. core_find env tr' (vendor_id self) (configured_product_id self) = None)
             \<and> a < 0)",
        OF _ y])
    fix f :: "usb \<Rightarrow> bridge \<Rightarrow> int \<Rightarrow> trace \<Rightarrow> ((exn + device \<times> bool) \<times> trace) option"
    fix env self a tr y
    assume IH: "\<And>env self a tr y. f env self a tr = Some y \<Longrightarrow>
          \<not> ((\<forall>tr'. core_find env tr' (vendor_id self) (unconfigured_product_id self) = None)
             \<and> (\<forall>tr'. core_find env tr' (vendor_id self) (configured_product_id self) = None)
             \<and> a < 0)"
      and step: "(let unconfigured_device =
            core_find env tr (vendor_id self) (unconfigured_product_id self);
          tr1 = tr @ [EvFind (vendor_id self) (unconfigured_product_id self)
                        unconfigured_device];
          configured_device =
            core_find env tr1 (vendor_id self) (configured_product_id self);
          tr2 = tr1 @ [EvFind (vendor_id self) (configured_product_id self)
                         configured_device]
      in case configured_device of
           Some c \<Rightarrow> Some (Inr (c, True), tr2)
         | None \<Rightarrow>
             (case unconfigured_device of
                Some u \<Rightarrow> Some (Inr (u, False), tr2)
              | None \<Rightarrow>
                  if a \<noteq> 0
                  then f env self (a - 1) (tr2 @ [EvSleep 1])
                  else Some (Inl (USBError None ''Device not connected''), tr2))) = Some y"
    show "\<not> ((\<forall>tr'. core_find env tr' (vendor_id self) (unconfigured_product_id self) = None)
             \<and> (\<forall>tr'. core_find env tr' (vendor_id self) (configured_product_id self) = None)
             \<and> a < 0)"
    proof
      assume h: "(\<forall>tr'. core_find env tr' (vendor_id self) (unconfigured_product_id self) = None)
             \<and> (\<forall>tr'. core_find env tr' (vendor_id self) (configured_product_id self) = None)
             \<and> a < 0"
      with step have "f env self (a - 1)
          (tr @ [EvFind (vendor_id self) (unconfigured_product_id self) None,
                 EvFind (vendor_id self) (configured_product_id self) None, EvSleep 1]) = Some y"
        by (simp add: Let_def)
      from IH [OF this] h show False by simp
    qed
  qed
  with u c neg show False by blast
qed

text \<open>
  Claim C5. When the lookup of the unconfigured product id and the lookup of the
  configured product id both find a device, \<open>detectDevice\<close> returns the configured device
  with \<open>is_configured = True\<close>, whatever the number of attempts left, after these two
  lookups and nothing else.
\<close>

theorem detect_prefers_configured:
  assumes "core_find env tr (vendor_id self) (unconfigured_product_id self) = Some u"
    and "core_find env (tr @ [EvFind (vendor_id self) (unconfigured_product_id self) (Some u)])
           (vendor_id self) (configured_product_id self) = Some c"
  shows "detectDevice env self attempts_left tr =
           Some (Inr (c, True),
                 tr @ [EvFind (vendor_id self) (unconfigured_product_id self) (Some u),
                       EvFind (vendor_id self) (configured_product_id self) (Some c)])"
  using assms by (rule detect_configured)

theorem detect_prefers_configured_witness:
  "detectDevice
     (quiet_usb\<lparr>core_find :=
        (\<lambda>tr v p. if p = 0x2d01 then Some (Device 2)
                  else if p = 0x4ee2 then Some (Device 1) else None)\<rparr>)
     nexus4_unopened 5 []
   = Some (Inr (Device 2, True),
           [EvFind 0x18d1 0x4ee2 (Some (Device 1)), EvFind 0x18d1 0x2d01 (Some (Device 2))])"
  using detect_prefers_configured
    [of "quiet_usb\<lparr>core_find :=
           (\<lambda>tr v p. if p = 0x2d01 then Some (Device 2)
                     else if p = 0x4ee2 then Some (Device 1) else None)\<rparr>"
        "[]" nexus4_unopened "Device 1" "Device 2" 5]
  by (simp add: nexus4_unopened_def)

text \<open>
  Claim C6. When no lookup ever finds a device and the number of attempts left is not
  negative (the default is 5), \<open>detectDevice\<close> returns: it raises the \<open>USBError\<close>
  ``Device not connected'' after one pair of lookups per attempt left and a last pair,
  with one sleep of a second per attempt left.
\<close>

theorem detect_exhausts:
  assumes "\<And>tr'. core_find env tr' (vendor_id self) (unconfigured_product_id self) = None"
    and "\<And>tr'. core_find env tr' (vendor_id self) (configured_product_id self) = None"
    and "0 \<le> attempts_left"
  shows "detectDevice env self attempts_left tr =
           Some (Inl (USBError None ''Device not connected''),
                 tr @ missed_attempts self (nat attempts_left))
       \<and> count_list (missed_attempts self (nat attempts_left)) (EvSleep 1) = nat attempts_left
       \<and> length (missed_attempts self (nat attempts_left)) = 3 * nat attempts_left + 2"
  using detect_misses [OF assms(1,2), of "nat attempts_left" tr] assms(3)
  by (simp add: count_sleeps length_missed_attempts)

theorem detect_exhausts_witness:
  "detectDevice quiet_usb nexus4_unopened 5 [] =
     Some (Inl (USBError None ''Device not connected''), missed_attempts nexus4_unopened 5)
   \<and> count_list (missed_attempts nexus4_unopened 5) (EvSleep 1) = 5
   \<and> length (missed_attempts nexus4_unopened 5) = 17"
  using detect_exhausts [of quiet_usb nexus4_unopened 5 "[]"]
  by (simp add: quiet_usb_def)

section \<open>Closing the bridge: the claims\<close>

text \<open>
  Claim C2, as stated, fails: \<open>close\<close> has no handler around the write of the
  terminator. On a transport whose bulk write raises, the error leaves \<open>close\<close> at once:
  nothing is disposed and the bridge keeps its device and its endpoints.
\<close>

theorem close_keeps_resources_counterexample:
  "close
     (quiet_usb\<lparr>ep_write :=
        (\<lambda>tr ep bs timeout. Inl (USBError (Some 19) ''No such device''))\<rparr>)
     nexus4_open []
   = (Inl (USBError (Some 19) ''No such device''), nexus4_open,
      [EvWrite (Endpoint 1) [0, 0] None (Inl (USBError (Some 19) ''No such device''))])"
  by (simp add: close_def quiet_usb_def nexus4_open_def nexus4_unopened_def)

text \<open>
  Claim C2, amended. On a bridge with a device and an OUT endpoint, \<open>close\<close> writes the
  two zero bytes of the terminator. When that write returns, whatever count it reports,
  the resources of the device are disposed and the device and both endpoints are set to
  \<^verbatim>\<open>None\<close>. When it raises, \<open>close\<close> raises the same error, with nothing disposed and
  the bridge as it was.
\<close>

theorem close_releases_after_terminator:
  assumes "device self = Some dev" and "endpoint_out self = Some ep"
  shows "(ep_write env tr ep [0, 0] None = Inr n \<longrightarrow>
            close env self tr =
              (Inr (),
               self\<lparr>device := None, endpoint_out := None, endpoint_in := None\<rparr>,
               tr @ [EvWrite ep [0, 0] None (Inr n), EvDispose dev]))
       \<and> (ep_write env tr ep [0, 0] None = Inl e \<longrightarrow>
            close env self tr = (Inl e, self, tr @ [EvWrite ep [0, 0] None (Inl e)]))"
  using assms by (simp add: close_def Let_def)

theorem close_releases_after_terminator_witness:
  "close quiet_usb nexus4_open [] =
     (Inr (),
      nexus4_open\<lparr>device := None, endpoint_out := None, endpoint_in := None\<rparr>,
      [EvWrite (Endpoint 1) [0, 0] None (Inr 2), EvDispose (Device 1)])
   \<and> close
       (quiet_usb\<lparr>ep_write :=
          (\<lambda>tr ep bs timeout. Inl (USBError (Some 19) ''No such device''))\<rparr>)
       nexus4_open [] =
     (Inl (USBError (Some 19) ''No such device''), nexus4_open,
      [EvWrite (Endpoint 1) [0, 0] None (Inl (USBError (Some 19) ''No such device''))])"
  using close_releases_after_terminator
    [of nexus4_open "Device 1" "Endpoint 1" quiet_usb "[]" 2]
    close_releases_after_terminator
    [of nexus4_open "Device 1" "Endpoint 1"
        "quiet_usb\<lparr>ep_write :=
           (\<lambda>tr ep bs timeout. Inl (USBError (Some 19) ''No such device''))\<rparr>"
        "[]" _ "USBError (Some 19) ''No such device''"]
  by (simp add: quiet_usb_def nexus4_open_def nexus4_unopened_def)

text \<open>
  Claim C9. After a \<open>close\<close> that has returned, the bridge has no device and no
  endpoint, and \<open>write\<close>, \<open>read\<close> and \<open>close\<close> each fail their first assertion, on any
  transport and with any argument, with no call made to the transport: the trace is
  unchanged.
\<close>

theorem use_after_close_fails:
  assumes "close env self tr = (Inr (), self', tr')"
  shows "device self' = None \<and> endpoint_out self' = None \<and> endpoint_in self' = None
       \<and> write_data env2 self' data timeout tr2 = Some (Inl AssertionError, tr2)
       \<and> read env2 self' timeout tr2 = (Inl AssertionError, tr2)
       \<and> close env2 self' tr2 = (Inl AssertionError, self', tr2)"
  using assms
  by (auto simp: close_def write_data_def read_def Let_def split: option.splits sum.splits)

theorem use_after_close_fails_witness:
  "close quiet_usb nexus4_open [] =
     (Inr (), nexus4_unopened, [EvWrite (Endpoint 1) [0, 0] None (Inr 2), EvDispose (Device 1)])
   \<and> write_data quiet_usb nexus4_unopened [1, 2, 3] None
        [EvWrite (Endpoint 1) [0, 0] None (Inr 2), EvDispose (Device 1)] =
       Some (Inl AssertionError,
             [EvWrite (Endpoint 1) [0, 0] None (Inr 2), EvDispose (Device 1)])
   \<and> read quiet_usb nexus4_unopened None
        [EvWrite (Endpoint 1) [0, 0] None (Inr 2), EvDispose (Device 1)] =
       (Inl AssertionError,
        [EvWrite (Endpoint 1) [0, 0] None (Inr 2), EvDispose (Device 1)])
   \<and> close quiet_usb nexus4_unopened
        [EvWrite (Endpoint 1) [0, 0] None (Inr 2), EvDispose (Device 1)] =
       (Inl AssertionError, nexus4_unopened,
        [EvWrite (Endpoint 1) [0, 0] None (Inr 2), EvDispose (Device 1)])"
proof -
  have c: "close quiet_usb nexus4_open [] =
     (Inr (), nexus4_unopened, [EvWrite (Endpoint 1) [0, 0] None (Inr 2), EvDispose (Device 1)])"
    by (simp add: close_def quiet_usb_def nexus4_open_def nexus4_unopened_def)
  show ?thesis
    using c use_after_close_fails [OF c, of quiet_usb "[1, 2, 3]" None
        "[EvWrite (Endpoint 1) [0, 0] None (Inr 2), EvDispose (Device 1)]"]
    by simp
qed

section \<open>Reading a frame: the claims\<close>

text \<open>
  Claim C10. One handler covers both bulk reads of \<open>read\<close>. A timeout of the read of
  the payload, after the two bytes of the header have been taken, gives the result
  \<^verbatim>\<open>None\<close>, the same result as a timeout of the read of the header.
\<close>

theorem read_payload_timeout_is_None:
  assumes "device self = Some dev" and "endpoint_in self = Some ep"
  shows "(ep_read env tr ep 2 timeout = Inl e \<and> timed_out e \<longrightarrow>
            fst (read env self timeout tr) = Inr None)
       \<and> (ep_read env tr ep 2 timeout = Inr (b0 # b1 # bs)
            \<and> ep_read env (tr @ [EvRead ep 2 timeout (Inr (b0 # b1 # bs))]) ep
                 (push_bit 8 (uint b0) OR uint b1) timeout = Inl e
            \<and> timed_out e \<longrightarrow>
            fst (read env self timeout tr) = Inr None)"
  using assms by (simp add: read_def Let_def read_except_def)

theorem read_payload_timeout_is_None_witness:
  "fst (read quiet_usb nexus4_open None []) = Inr None
   \<and> read
       (quiet_usb\<lparr>ep_read :=
          (\<lambda>tr ep n timeout.
             if tr = [] then Inr [0, 3]
             else Inl (USBError (Some 110) ''Operation timed out''))\<rparr>)
       nexus4_open None [] =
     (Inr None,
      [EvRead (Endpoint 129) 2 None (Inr [0, 3]),
       EvRead (Endpoint 129) 3 None (Inl (USBError (Some 110) ''Operation timed out''))])"
proof -
  let ?env = "quiet_usb\<lparr>ep_read :=
          (\<lambda>tr ep n timeout.
             if tr = [] then Inr [0, 3]
             else Inl (USBError (Some 110) ''Operation timed out''))\<rparr>"
  have a: "fst (read quiet_usb nexus4_open None []) = Inr None"
    using read_payload_timeout_is_None
      [of nexus4_open "Device 1" "Endpoint 129" quiet_usb "[]" None
          "USBError (Some 110) ''Operation timed out''"]
    by (simp add: quiet_usb_def nexus4_open_def nexus4_unopened_def)
  have b: "fst (read ?env nexus4_open None []) = Inr None"
    using read_payload_timeout_is_None
      [of nexus4_open "Device 1" "Endpoint 129" ?env "[]" None
          "USBError (Some 110) ''Operation timed out''" 0 3 "[]"]
    by (simp add: nexus4_open_def nexus4_unopened_def)
  have "snd (read ?env nexus4_open None []) =
      [EvRead (Endpoint 129) 2 None (Inr [0, 3]),
       EvRead (Endpoint 129) 3 None (Inl (USBError (Some 110) ''Operation timed out''))]"
    by (simp add: read_def read_except_def nexus4_open_def nexus4_unopened_def)
  with a b show ?thesis by (simp add: prod_eq_iff)
qed

section \<open>The frame header\<close>

lemma and_ff: "(n::int) AND 0xff = n mod 256"
proof -
  have "n AND mask 8 = take_bit 8 n" by (simp only: take_bit_eq_mask)
  then show ?thesis by (simp add: take_bit_eq_mod mask_eq_exp_minus_1)
qed

lemma and_ff00: "drop_bit 8 ((n::int) AND 0xff00) = (n div 256) mod 256"
proof -
  have "drop_bit 8 (0xff00::int) = 0xff" by (simp add: drop_bit_eq_div)
  then have "drop_bit 8 (n AND 0xff00) = drop_bit 8 n AND 0xff"
    by (simp only: drop_bit_and)
  then show ?thesis by (simp add: and_ff drop_bit_eq_div)
qed

lemma uint_byte_less: "uint (b::byte) < 256"
  using uint_lt2p [of b] by simp

lemma byte_or_push_bit: "uint (b::byte) OR push_bit 8 k = uint b + 256 * k"
proof -
  have t: "take_bit 8 (uint b) = uint b"
    using uint_byte_less [of b] by (simp add: take_bit_eq_mod)
  then have "uint b OR push_bit 8 k = concat_bit 8 (uint b) k"
    by (simp add: concat_bit_def)
  also have "\<dots> = take_bit 8 (uint b) + push_bit 8 k" by (rule concat_bit_eq)
  finally show ?thesis by (simp only: t push_bit_eq_mult) simp
qed

lemma push_bit_or_byte: "push_bit 8 k OR uint (b::byte) = 256 * k + uint b"
  using byte_or_push_bit [of b k] by (simp add: or.commute)

lemma size_header_eq:
  "size_header n = [word_of_int ((n div 256) mod 256), word_of_int (n mod 256)]"
  by (simp only: size_header_def and_ff and_ff00)

lemma split_65536: "256 * (((n::int) div 256) mod 256) + n mod 256 = n mod 65536"
proof -
  have "n mod (256 * 256) = 256 * (n div 256 mod 256) + n mod 256"
    by (rule zmod_zmult2_eq) simp
  then show ?thesis by simp
qed

lemma size_header_value:
  "\<exists>hi lo. size_header n = [hi, lo] \<and> 256 * uint hi + uint lo = n mod 65536"
proof -
  let ?hi = "word_of_int ((n div 256) mod 256) :: byte"
  let ?lo = "word_of_int (n mod 256) :: byte"
  have hi: "uint ?hi = (n div 256) mod 256" by (simp add: uint_word_of_int)
  have lo: "uint ?lo = n mod 256" by (simp add: uint_word_of_int)
  from hi lo have "256 * uint ?hi + uint ?lo = n mod 65536"
    by (simp only: split_65536)
  then show ?thesis by (simp only: size_header_eq) blast
qed

section \<open>Writing a frame\<close>

lemma wire_of_append: "wire_of (tr @ evs) = wire_of tr @ wire_of evs"
  by (simp add: wire_of_def)

lemma write_header_retry:
  assumes "ep_write env tr ep size_bytes timeout = Inl e" and "timed_out e"
  shows "write_header env ep size_bytes timeout tr =
           write_header env ep size_bytes timeout (tr @ [EvWrite ep size_bytes timeout (Inl e)])"
  by (subst write_header.simps) (simp add: assms Let_def)

lemma write_header_raise:
  assumes "ep_write env tr ep size_bytes timeout = Inl e" and "\<not> timed_out e"
  shows "write_header env ep size_bytes timeout tr =
           Some (Inl e, tr @ [EvWrite ep size_bytes timeout (Inl e)])"
  by (subst write_header.simps) (simp add: assms Let_def)

lemma write_header_returns:
  assumes "ep_write env tr ep size_bytes timeout = Inr n"
  shows "write_header env ep size_bytes timeout tr =
           Some (if n = 2 then Inr () else Inl AssertionError,
                 tr @ [EvWrite ep size_bytes timeout (Inr n)])"
  by (subst write_header.simps) (simp add: assms Let_def)

lemma write_header_never:
  assumes "\<And>tr'. \<exists>e. ep_write env tr' ep size_bytes timeout = Inl e \<and> timed_out e"
  shows "write_header env ep size_bytes timeout tr = None"
proof (rule ccontr)
  assume "write_header env ep size_bytes timeout tr \<noteq> None"
  then obtain y where y: "write_header env ep size_bytes timeout tr = Some y" by blast
  have "\<not> (\<forall>tr'. \<exists>e. ep_write env tr' ep size_bytes timeout = Inl e \<and> timed_out e)"
  proof (rule write_header.raw_induct
      [where P = "\<lambda>env ep sb t tr y. \<not> (\<forall>tr'. \<exists>e. ep_write env tr' ep sb t = Inl e \<and> timed_out e)",
        OF _ y])
    fix f :: "usb \<Rightarrow> endpoint \<Rightarrow> byte list \<Rightarrow> int option \<Rightarrow> trace \<Rightarrow> ((exn + unit) \<times> trace) option"
    fix env ep sb t tr y
    assume IH: "\<And>env ep sb t tr y. f env ep sb t tr = Some y \<Longrightarrow>
                  \<not> (\<forall>tr'. \<exists>e. ep_write env tr' ep sb t = Inl e \<and> timed_out e)"
      and step: "(let r = ep_write env tr ep sb t; tr1 = tr @ [EvWrite ep sb t r]
                  in case r of
                       Inl e \<Rightarrow> if timed_out e then f env ep sb t tr1 else Some (Inl e, tr1)
                     | Inr bytes_wrote \<Rightarrow>
                         if bytes_wrote = 2 then Some (Inr (), tr1)
                         else Some (Inl AssertionError, tr1)) = Some y"
    show "\<not> (\<forall>tr'. \<exists>e. ep_write env tr' ep sb t = Inl e \<and> timed_out e)"
    proof
      assume all: "\<forall>tr'. \<exists>e. ep_write env tr' ep sb t = Inl e \<and> timed_out e"
      then obtain e where e: "ep_write env tr ep sb t = Inl e" "timed_out e"
        by blast
      from step e have "f env ep sb t (tr @ [EvWrite ep sb t (Inl e)]) = Some y"
        by (simp add: Let_def)
      from IH [OF this] all show False by blast
    qed
  qed
  with assms show False by blast
qed

lemma write_header_wire:
  assumes "write_header env ep size_bytes timeout tr = Some (Inr u, tr1)"
  shows "wire_of tr1 = wire_of tr @ take 2 size_bytes"
proof -
  have "fst (Inr u :: exn + unit, tr1) = Inr () \<longrightarrow>
          wire_of (snd (Inr u :: exn + unit, tr1)) = wire_of tr @ take 2 size_bytes"
  proof (rule write_header.raw_induct
      [where P = "\<lambda>env ep sb t tr y.
                    fst y = Inr () \<longrightarrow> wire_of (snd y) = wire_of tr @ take 2 sb",
        OF _ assms])
    fix f :: "usb \<Rightarrow> endpoint \<Rightarrow> byte list \<Rightarrow> int option \<Rightarrow> trace \<Rightarrow> ((exn + unit) \<times> trace) option"
    fix env ep sb t tr y
    assume IH: "\<And>env ep sb t tr y. f env ep sb t tr = Some y \<Longrightarrow>
                  fst y = Inr () \<longrightarrow> wire_of (snd y) = wire_of tr @ take 2 sb"
      and step: "(let r = ep_write env tr ep sb t; tr1 = tr @ [EvWrite ep sb t r]
                  in case r of
                       Inl e \<Rightarrow> if timed_out e then f env ep sb t tr1 else Some (Inl e, tr1)
                     | Inr bytes_wrote \<Rightarrow>
                         if bytes_wrote = 2 then Some (Inr (), tr1)
                         else Some (Inl AssertionError, tr1)) = Some y"
    show "fst y = Inr () \<longrightarrow> wire_of (snd y) = wire_of tr @ take 2 sb"
    proof (cases "ep_write env tr ep sb t")
      case (Inl e)
      show ?thesis
      proof (cases "timed_out e")
        case True
        with step Inl have "f env ep sb t (tr @ [EvWrite ep sb t (Inl e)]) = Some y"
          by (simp add: Let_def)
        from IH [OF this] show ?thesis by (simp add: wire_of_append) (simp add: wire_of_def)
      next
        case False
        with step Inl show ?thesis by (auto simp: Let_def)
      qed
    next
      case (Inr n)
      with step show ?thesis
        by (auto simp: Let_def wire_of_append split: if_splits) (simp add: wire_of_def)
    qed
  qed
  then show ?thesis by simp
qed

lemma write_data_returns:
  assumes "write_data env self data timeout tr = Some (Inr u, tr')"
  obtains dev ep tr1 where
    "device self = Some dev" and "endpoint_out self = Some ep" and "data \<noteq> []"
    and "write_header env ep (size_header (int (length data))) timeout tr = Some (Inr (), tr1)"
    and "ep_write env tr1 ep data timeout = Inr (int (length data))"
    and "tr' = tr1 @ [EvWrite ep data timeout (Inr (int (length data)))]"
  using assms
  by (auto simp: write_data_def Let_def
      split: option.splits sum.splits if_splits prod.splits)

lemma write_data_sends:
  assumes "device self = Some dev" and "endpoint_out self = Some ep" and "data \<noteq> []"
    and "ep_write env tr ep (size_header (int (length data))) timeout = Inr 2"
    and "ep_write env (tr @ [EvWrite ep (size_header (int (length data))) timeout (Inr 2)])
           ep data timeout = Inr n"
  shows "write_data env self data timeout tr =
           Some (if n = int (length data) then Inr () else Inl AssertionError,
                 tr @ [EvWrite ep (size_header (int (length data))) timeout (Inr 2),
                       EvWrite ep data timeout (Inr n)])"
  using assms write_header_returns [OF assms(4)]
  by (simp add: write_data_def Let_def)

lemma read_peer_frame:
  assumes "device peer = Some pdev" and "endpoint_in peer = Some pep"
    and "256 * uint hi + uint lo = int (length data)"
  shows "read (peer_usb (hi # lo # data @ rest)) peer timeout [] =
           (Inr (Some data),
            [EvRead pep 2 timeout (Inr [hi, lo]),
             EvRead pep (int (length data)) timeout (Inr data)])"
  using assms
  by (simp add: read_def peer_usb_def quiet_usb_def received_def push_bit_or_byte)

text \<open>
  Whatever the transport did on the way, timeouts of the header included, a \<open>write\<close>
  that has returned has put the header and the payload on the wire.
\<close>

lemma returned_write_on_wire:
  assumes "write_data env self data timeout tr = Some (Inr (), tr')"
  shows "wire_of tr' = wire_of tr @ size_header (int (length data)) @ data"
proof -
  from assms obtain dev ep tr1 where
    hdr: "write_header env ep (size_header (int (length data))) timeout tr = Some (Inr (), tr1)"
    and tr': "tr' = tr1 @ [EvWrite ep data timeout (Inr (int (length data)))]"
    by (rule write_data_returns)
  have "wire_of tr1 = wire_of tr @ size_header (int (length data))"
    using write_header_wire [OF hdr] by (simp add: size_header_def)
  then show ?thesis
    by (simp add: tr' wire_of_append) (simp add: wire_of_def)
qed

section \<open>The framed channel: the claims\<close>

text \<open>
  Claim C1, as stated, fails at the empty payload: the first assertion of \<open>write\<close>
  tests the truth of \<^verbatim>\<open>data\<close>, so \<open>write\<close> of no bytes raises and nothing is sent, on
  a transport that would accept everything.
\<close>

theorem write_empty_counterexample:
  "write_data quiet_usb nexus4_open [] None [] = Some (Inl AssertionError, [])"
  by (simp add: write_data_def nexus4_open_def nexus4_unopened_def)

text \<open>
  Claim C1, amended. For every payload of 1 to 65535 bytes, \<open>write\<close> on an open bridge,
  over a transport that takes the two bytes of the header and all of the payload,
  returns, and what it has put on the wire is two bytes, which hold the length of the
  payload with the high byte first, and then the bytes of the payload. A peer that reads
  with \<open>read\<close> a wire that starts with these bytes gets exactly the payload back,
  whatever follows them on the wire. \<open>write\<close> of the empty payload fails its assertion
  on every transport and sends nothing. A frame of length zero on the wire, as \<open>close\<close>
  sends it, is read as the empty payload.
\<close>

theorem write_read_round_trip:
  assumes "device self = Some dev" and "endpoint_out self = Some ep"
    and "1 \<le> length data" and "length data \<le> 65535"
    and "ep_write env tr ep (size_header (int (length data))) timeout = Inr 2"
    and "ep_write env (tr @ [EvWrite ep (size_header (int (length data))) timeout (Inr 2)])
           ep data timeout = Inr (int (length data))"
    and "device peer = Some pdev" and "endpoint_in peer = Some pep"
  shows "(\<exists>hi lo.
            size_header (int (length data)) = [hi, lo]
          \<and> 256 * uint hi + uint lo = int (length data)
          \<and> write_data env self data timeout tr =
              Some (Inr (),
                    tr @ [EvWrite ep [hi, lo] timeout (Inr 2),
                          EvWrite ep data timeout (Inr (int (length data)))])
          \<and> wire_of (tr @ [EvWrite ep [hi, lo] timeout (Inr 2),
                            EvWrite ep data timeout (Inr (int (length data)))])
              = wire_of tr @ hi # lo # data
          \<and> (\<forall>rest. read (peer_usb (hi # lo # data @ rest)) peer timeout' [] =
                 (Inr (Some data),
                  [EvRead pep 2 timeout' (Inr [hi, lo]),
                   EvRead pep (int (length data)) timeout' (Inr data)])))
       \<and> write_data env0 self0 [] timeout0 tr0 = Some (Inl AssertionError, tr0)
       \<and> (\<forall>rest. read (peer_usb (0 # 0 # rest)) peer timeout' [] =
             (Inr (Some []),
              [EvRead pep 2 timeout' (Inr [0, 0]), EvRead pep 0 timeout' (Inr [])]))"
proof -
  obtain hi lo where
    sh: "size_header (int (length data)) = [hi, lo]"
    and v: "256 * uint hi + uint lo = int (length data) mod 65536"
    using size_header_value by blast
  from assms(4) v have v': "256 * uint hi + uint lo = int (length data)"
    by simp
  from assms(3) have ne: "data \<noteq> []" by auto
  have w: "write_data env self data timeout tr =
             Some (Inr (),
                   tr @ [EvWrite ep [hi, lo] timeout (Inr 2),
                         EvWrite ep data timeout (Inr (int (length data)))])"
    using write_data_sends [OF assms(1,2) ne assms(5,6)] by (simp add: sh)
  have wire: "wire_of (tr @ [EvWrite ep [hi, lo] timeout (Inr 2),
                             EvWrite ep data timeout (Inr (int (length data)))])
                = wire_of tr @ hi # lo # data"
    using returned_write_on_wire [OF w] by (simp add: sh)
  have r: "\<forall>rest. read (peer_usb (hi # lo # data @ rest)) peer timeout' [] =
                 (Inr (Some data),
                  [EvRead pep 2 timeout' (Inr [hi, lo]),
                   EvRead pep (int (length data)) timeout' (Inr data)])"
    using read_peer_frame [OF assms(7,8) v'] by blast
  have e: "write_data env0 self0 [] timeout0 tr0 = Some (Inl AssertionError, tr0)"
    by (simp add: write_data_def split: option.splits)
  have z: "\<forall>rest. read (peer_usb (0 # 0 # rest)) peer timeout' [] =
             (Inr (Some []),
              [EvRead pep 2 timeout' (Inr [0, 0]), EvRead pep 0 timeout' (Inr [])])"
    using read_peer_frame [OF assms(7,8), of 0 0 "[]"] by simp
  from sh v' w wire r e z show ?thesis by blast
qed

theorem write_read_round_trip_witness:
  "write_data quiet_usb nexus4_open [104, 105] (Some 1000) [] =
     Some (Inr (),
           [EvWrite (Endpoint 1) [0, 2] (Some 1000) (Inr 2),
            EvWrite (Endpoint 1) [104, 105] (Some 1000) (Inr 2)])
   \<and> wire_of [EvWrite (Endpoint 1) [0, 2] (Some 1000) (Inr 2),
               EvWrite (Endpoint 1) [104, 105] (Some 1000) (Inr 2)] = [0, 2, 104, 105]
   \<and> read (peer_usb [0, 2, 104, 105, 0, 1, 33]) nexus4_open None [] =
       (Inr (Some [104, 105]),
        [EvRead (Endpoint 129) 2 None (Inr [0, 2]),
         EvRead (Endpoint 129) 2 None (Inr [104, 105])])
   \<and> write_data quiet_usb nexus4_open [] (Some 1000) [] = Some (Inl AssertionError, [])
   \<and> read (peer_usb [0, 0, 0, 1, 33]) nexus4_open None [] =
       (Inr (Some []),
        [EvRead (Endpoint 129) 2 None (Inr [0, 0]), EvRead (Endpoint 129) 0 None (Inr [])])"
proof -
  have sh: "size_header 2 = [0, 2]" by (simp add: size_header_eq)
  have op: "device nexus4_open = Some (Device 1)" "endpoint_out nexus4_open = Some (Endpoint 1)"
    "endpoint_in nexus4_open = Some (Endpoint 129)"
    by (simp_all add: nexus4_open_def nexus4_unopened_def)
  have h1: "ep_write quiet_usb [] (Endpoint 1) (size_header (int (length [104, 105 :: byte])))
              (Some 1000) = Inr 2"
    by (simp add: quiet_usb_def sh)
  have h2: "ep_write quiet_usb
              ([] @ [EvWrite (Endpoint 1) (size_header (int (length [104, 105 :: byte])))
                       (Some 1000) (Inr 2)])
              (Endpoint 1) [104, 105] (Some 1000) = Inr (int (length [104, 105 :: byte]))"
    by (simp add: quiet_usb_def)
  from write_read_round_trip
    [OF op(1,2) _ _ h1 h2 op(1,3), of None quiet_usb nexus4_open "Some 1000" "[]"]
  obtain hi lo where
    "size_header (int (length [104, 105 :: byte])) = [hi, lo]"
    and "write_data quiet_usb nexus4_open [104, 105] (Some 1000) [] =
           Some (Inr (),
                 [] @ [EvWrite (Endpoint 1) [hi, lo] (Some 1000) (Inr 2),
                       EvWrite (Endpoint 1) [104, 105] (Some 1000)
                         (Inr (int (length [104, 105 :: byte])))])"
    and "wire_of ([] @ [EvWrite (Endpoint 1) [hi, lo] (Some 1000) (Inr 2),
                        EvWrite (Endpoint 1) [104, 105] (Some 1000)
                          (Inr (int (length [104, 105 :: byte])))])
           = wire_of [] @ hi # lo # [104, 105]"
    and "\<forall>rest. read (peer_usb (hi # lo # [104, 105] @ rest)) nexus4_open None [] =
           (Inr (Some [104, 105]),
            [EvRead (Endpoint 129) 2 None (Inr [hi, lo]),
             EvRead (Endpoint 129) (int (length [104, 105 :: byte])) None (Inr [104, 105])])"
    and "write_data quiet_usb nexus4_open [] (Some 1000) [] = Some (Inl AssertionError, [])"
    and "\<forall>rest. read (peer_usb (0 # 0 # rest)) nexus4_open None [] =
           (Inr (Some []),
            [EvRead (Endpoint 129) 2 None (Inr [0, 0]), EvRead (Endpoint 129) 0 None (Inr [])])"
    by auto
  then show ?thesis
    by (simp add: sh wire_of_def)
qed

text \<open>
  Claim C3, as stated, fails: \<open>write\<close> never looks at the length of the payload. A
  payload of 65536 bytes is written behind the header of an empty frame.
\<close>

theorem write_oversized_counterexample:
  "write_data quiet_usb nexus4_open (replicate 65536 0) None [] =
     Some (Inr (),
           [EvWrite (Endpoint 1) [0, 0] None (Inr 2),
            EvWrite (Endpoint 1) (replicate 65536 0) None (Inr 65536)])"
proof -
  have ne: "replicate 65536 (0::byte) \<noteq> []"
    by (simp only: replicate_empty)
  have sh: "size_header (int (length (replicate 65536 (0::byte)))) = [0, 0]"
    by (simp add: size_header_eq)
  have "write_data quiet_usb nexus4_open (replicate 65536 0) None [] =
          Some (if (65536::int) = int (length (replicate 65536 (0::byte)))
                then Inr () else Inl AssertionError,
                [] @ [EvWrite (Endpoint 1)
                        (size_header (int (length (replicate 65536 (0::byte))))) None (Inr 2),
                      EvWrite (Endpoint 1) (replicate 65536 0) None (Inr 65536)])"
    by (rule write_data_sends [where dev = "Device 1"])
      (simp_all only: ne not_False_eq_True sh,
       simp_all add: nexus4_open_def nexus4_unopened_def quiet_usb_def)
  then show ?thesis by (simp only: sh) simp
qed

text \<open>
  Claim C3, amended. \<open>write\<close> rejects no payload for its length. For every payload
  that is not empty, on a transport that takes the two bytes of the header and all of the
  payload, \<open>write\<close> returns, having sent a header that holds the length modulo 65536, the
  high byte first, and then the whole payload. The header holds the length itself exactly
  when the length is at most 65535.
\<close>

theorem write_header_is_length_mod_65536:
  assumes "device self = Some dev" and "endpoint_out self = Some ep" and "data \<noteq> []"
    and "ep_write env tr ep (size_header (int (length data))) timeout = Inr 2"
    and "ep_write env (tr @ [EvWrite ep (size_header (int (length data))) timeout (Inr 2)])
           ep data timeout = Inr (int (length data))"
  shows "write_data env self data timeout tr =
           Some (Inr (),
                 tr @ [EvWrite ep (size_header (int (length data))) timeout (Inr 2),
                       EvWrite ep data timeout (Inr (int (length data)))])
       \<and> (\<exists>hi lo. size_header (int (length data)) = [hi, lo]
             \<and> 256 * uint hi + uint lo = int (length data) mod 65536
             \<and> (256 * uint hi + uint lo = int (length data) \<longleftrightarrow> length data \<le> 65535))"
proof -
  obtain hi lo where
    sh: "size_header (int (length data)) = [hi, lo]"
    and v: "256 * uint hi + uint lo = int (length data) mod 65536"
    using size_header_value by blast
  have "(int (length data) mod 65536 = int (length data)) \<longleftrightarrow> length data \<le> 65535"
    by (auto simp: zmod_trivial_iff)
  with sh v write_data_sends [OF assms] show ?thesis by simp
qed

theorem write_header_is_length_mod_65536_witness:
  "write_data quiet_usb nexus4_open (replicate 65537 7) None [] =
     Some (Inr (),
           [EvWrite (Endpoint 1) [0, 1] None (Inr 2),
            EvWrite (Endpoint 1) (replicate 65537 7) None (Inr 65537)])"
proof -
  have ne: "replicate 65537 (7::byte) \<noteq> []"
    by (simp only: replicate_empty)
  have sh: "size_header (int (length (replicate 65537 (7::byte)))) = [0, 1]"
    by (simp add: size_header_eq)
  have "write_data quiet_usb nexus4_open (replicate 65537 7) None [] =
          Some (Inr (),
                [] @ [EvWrite (Endpoint 1)
                        (size_header (int (length (replicate 65537 (7::byte))))) None (Inr 2),
                      EvWrite (Endpoint 1) (replicate 65537 7) None
                        (Inr (int (length (replicate 65537 (7::byte)))))])"
    by (rule write_header_is_length_mod_65536 [where dev = "Device 1", THEN conjunct1])
      (simp_all only: ne not_False_eq_True sh,
       simp_all add: nexus4_open_def nexus4_unopened_def quiet_usb_def)
  then show ?thesis by (simp only: sh) simp
qed

text \<open>
  Claim C8. Once the header has been sent, a bulk write of the payload that reports a
  count other than the length of the payload, a smaller one in particular, makes \<open>write\<close>
  fail its assertion after that one write of the payload: the trace ends with it. A
  timeout of the write of the header makes \<open>write\<close> send the header again, from a state
  that keeps no count of the timeouts; when every write of the header times out, \<open>write\<close>
  does not return.
\<close>

theorem short_write_is_not_retried:
  assumes "device self = Some dev" and "endpoint_out self = Some ep" and "data \<noteq> []"
  shows "(write_header env ep (size_header (int (length data))) timeout tr = Some (Inr (), tr1)
            \<and> ep_write env tr1 ep data timeout = Inr n \<and> n \<noteq> int (length data) \<longrightarrow>
          write_data env self data timeout tr =
            Some (Inl AssertionError, tr1 @ [EvWrite ep data timeout (Inr n)]))
       \<and> (ep_write env tr ep (size_header (int (length data))) timeout = Inl e
            \<and> timed_out e \<longrightarrow>
          write_data env self data timeout tr =
            write_data env self data timeout
              (tr @ [EvWrite ep (size_header (int (length data))) timeout (Inl e)]))
       \<and> ((\<forall>tr'. \<exists>e'. ep_write env tr' ep (size_header (int (length data))) timeout = Inl e'
                    \<and> timed_out e') \<longrightarrow>
          write_data env self data timeout tr = None)"
proof (intro conjI impI)
  assume "write_header env ep (size_header (int (length data))) timeout tr = Some (Inr (), tr1)
            \<and> ep_write env tr1 ep data timeout = Inr n \<and> n \<noteq> int (length data)"
  with assms show "write_data env self data timeout tr =
            Some (Inl AssertionError, tr1 @ [EvWrite ep data timeout (Inr n)])"
    by (simp add: write_data_def Let_def)
next
  assume "ep_write env tr ep (size_header (int (length data))) timeout = Inl e \<and> timed_out e"
  then have "write_header env ep (size_header (int (length data))) timeout tr =
          write_header env ep (size_header (int (length data))) timeout
            (tr @ [EvWrite ep (size_header (int (length data))) timeout (Inl e)])"
    by (simp add: write_header_retry)
  with assms show "write_data env self data timeout tr =
            write_data env self data timeout
              (tr @ [EvWrite ep (size_header (int (length data))) timeout (Inl e)])"
    by (simp add: write_data_def Let_def)
next
  assume "\<forall>tr'. \<exists>e'. ep_write env tr' ep (size_header (int (length data))) timeout = Inl e'
                    \<and> timed_out e'"
  then have "write_header env ep (size_header (int (length data))) timeout tr = None"
    by (simp add: write_header_never)
  with assms show "write_data env self data timeout tr = None"
    by (simp add: write_data_def Let_def)
qed

theorem short_write_is_not_retried_witness:
  "write_data (quiet_usb\<lparr>ep_write := (\<lambda>tr ep bs timeout. Inr 2)\<rparr>)
     nexus4_open [7, 8, 9] None [] =
     Some (Inl AssertionError,
           [EvWrite (Endpoint 1) [0, 3] None (Inr 2),
            EvWrite (Endpoint 1) [7, 8, 9] None (Inr 2)])
   \<and> write_data
       (quiet_usb\<lparr>ep_write :=
          (\<lambda>tr ep bs timeout.
             if tr = [] then Inl (USBError (Some 110) ''Operation timed out'')
             else Inr (int (length bs)))\<rparr>)
       nexus4_open [7, 8, 9] None [] =
     Some (Inr (),
           [EvWrite (Endpoint 1) [0, 3] None
              (Inl (USBError (Some 110) ''Operation timed out'')),
            EvWrite (Endpoint 1) [0, 3] None (Inr 2),
            EvWrite (Endpoint 1) [7, 8, 9] None (Inr 3)])
   \<and> write_data
       (quiet_usb\<lparr>ep_write :=
          (\<lambda>tr ep bs timeout. Inl (USBError (Some 110) ''Operation timed out''))\<rparr>)
       nexus4_open [7, 8, 9] None [] = None"
proof -
  let ?short = "quiet_usb\<lparr>ep_write := (\<lambda>tr ep bs timeout. Inr 2)\<rparr>"
  let ?once = "quiet_usb\<lparr>ep_write :=
          (\<lambda>tr ep bs timeout.
             if tr = [] then Inl (USBError (Some 110) ''Operation timed out'')
             else Inr (int (length bs)))\<rparr>"
  let ?dead = "quiet_usb\<lparr>ep_write :=
          (\<lambda>tr ep bs timeout. Inl (USBError (Some 110) ''Operation timed out''))\<rparr>"
  let ?t = "EvWrite (Endpoint 1) [0, 3] None (Inl (USBError (Some 110) ''Operation timed out''))"
  have sh: "size_header 3 = [0, 3]" by (simp add: size_header_eq)
  have op: "device nexus4_open = Some (Device 1)" "endpoint_out nexus4_open = Some (Endpoint 1)"
    by (simp_all add: nexus4_open_def nexus4_unopened_def)
  have h: "write_header ?short (Endpoint 1) [0, 3] None [] =
             Some (Inr (), [EvWrite (Endpoint 1) [0, 3] None (Inr 2)])"
    using write_header_returns [of ?short "[]" "Endpoint 1" "[0, 3]" None 2] by simp
  have a: "write_data ?short nexus4_open [7, 8, 9] None [] =
             Some (Inl AssertionError,
                   [EvWrite (Endpoint 1) [0, 3] None (Inr 2),
                    EvWrite (Endpoint 1) [7, 8, 9] None (Inr 2)])"
    using short_write_is_not_retried
      [OF op, of "[7, 8, 9]" ?short None "[]" "[EvWrite (Endpoint 1) [0, 3] None (Inr 2)]" 2]
      h
    by (simp add: sh)
  have "write_data ?once nexus4_open [7, 8, 9] None [] =
          write_data ?once nexus4_open [7, 8, 9] None [?t]"
    using short_write_is_not_retried
      [OF op, of "[7, 8, 9]" ?once None "[]" _ _
         "USBError (Some 110) ''Operation timed out''"]
    by (simp add: sh)
  moreover have "write_data ?once nexus4_open [7, 8, 9] None [?t] =
      Some (Inr (), [?t, EvWrite (Endpoint 1) [0, 3] None (Inr 2),
                     EvWrite (Endpoint 1) [7, 8, 9] None (Inr 3)])"
    using write_data_sends [OF op, of "[7, 8, 9]" ?once "[?t]" None 3]
    by (simp add: sh)
  ultimately have b: "write_data ?once nexus4_open [7, 8, 9] None [] =
      Some (Inr (), [?t, EvWrite (Endpoint 1) [0, 3] None (Inr 2),
                     EvWrite (Endpoint 1) [7, 8, 9] None (Inr 3)])"
    by simp
  have c: "write_data ?dead nexus4_open [7, 8, 9] None [] = None"
    using short_write_is_not_retried [OF op, of "[7, 8, 9]" ?dead None "[]"]
    by simp
  from a b c show ?thesis by simp
qed

section \<open>Accessory negotiation: the claims\<close>

lemma detect_returns:
  "\<exists>r evs. detectDevice env self (int n) tr = Some (r, tr @ evs)
     \<and> (\<forall>ev\<in>set evs. \<not> is_ctrl_transfer ev)"
proof (induction n arbitrary: tr)
  case 0
  obtain u where u: "core_find env tr (vendor_id self) (unconfigured_product_id self) = u"
    by simp
  obtain c where c:
    "core_find env (tr @ [EvFind (vendor_id self) (unconfigured_product_id self) u])
       (vendor_id self) (configured_product_id self) = c"
    by simp
  show ?case
  proof (cases c)
    case (Some c')
    show ?thesis using detect_configured [OF u c [unfolded Some]] by simp
  next
    case None
    show ?thesis
    proof (cases u)
      case (Some u')
      show ?thesis
        using detect_unconfigured [OF u [unfolded Some] c [unfolded Some None]] by simp
    next
      case n: None
      show ?thesis using detect_give_up [OF u [unfolded n] c [unfolded n None]] by simp
    qed
  qed
next
  case (Suc n)
  obtain u where u: "core_find env tr (vendor_id self) (unconfigured_product_id self) = u"
    by simp
  obtain c where c:
    "core_find env (tr @ [EvFind (vendor_id self) (unconfigured_product_id self) u])
       (vendor_id self) (configured_product_id self) = c"
    by simp
  show ?case
  proof (cases c)
    case (Some c')
    show ?thesis using detect_configured [OF u c [unfolded Some]] by simp
  next
    case None
    show ?thesis
    proof (cases u)
      case (Some u')
      show ?thesis
        using detect_unconfigured [OF u [unfolded Some] c [unfolded Some None]] by simp
    next
      case n: None
      let ?tr3 = "tr @ [EvFind (vendor_id self) (unconfigured_product_id self) None,
                    EvFind (vendor_id self) (configured_product_id self) None,
                    EvSleep 1]"
      have "detectDevice env self (int (Suc n)) tr = detectDevice env self (int n) ?tr3"
        using detect_retry [OF u [unfolded n] c [unfolded n None], of "int (Suc n)"] by simp
      moreover obtain r evs where
        "detectDevice env self (int n) ?tr3 = Some (r, ?tr3 @ evs)"
        "\<forall>ev\<in>set evs. \<not> is_ctrl_transfer ev"
        using Suc.IH by blast
      ultimately show ?thesis by auto
    qed
  qed
qed

lemma detect_default_returns:
  "\<exists>r evs. detectDevice env self 5 tr = Some (r, tr @ evs)
     \<and> (\<forall>ev\<in>set evs. \<not> is_ctrl_transfer ev)"
  using detect_returns [of env self 5 tr] by simp

lemma wait_returns:
  "\<exists>r evs. wait_for_configured env self n tr = Some (r, tr @ evs)
     \<and> (\<forall>ev\<in>set evs. \<not> is_ctrl_transfer ev)"
proof (induction n arbitrary: tr)
  case 0
  show ?case by simp
next
  case (Suc n)
  obtain r evs where d: "detectDevice env self 5 tr = Some (r, tr @ evs)"
    and evs: "\<forall>ev\<in>set evs. \<not> is_ctrl_transfer ev"
    using detect_default_returns by blast
  show ?case
  proof (cases r)
    case (Inl e)
    with d evs show ?thesis by simp
  next
    case (Inr p)
    obtain dev is_configured where p: "p = (dev, is_configured)" by (cases p)
    show ?thesis
    proof (cases is_configured)
      case True
      with d evs Inr p show ?thesis by simp
    next
      case False
      obtain r' evs' where
        "wait_for_configured env self n ((tr @ evs) @ [EvSleep 1]) =
           Some (r', ((tr @ evs) @ [EvSleep 1]) @ evs')"
        and "\<forall>ev\<in>set evs'. \<not> is_ctrl_transfer ev"
        using Suc.IH by blast
      with d evs Inr p False show ?thesis by auto
    qed
  qed
qed

lemma send_extends:
  "\<exists>r evs. send_accessory_information env dev i infos tr = (r, tr @ evs)"
proof (induction infos arbitrary: i tr)
  case Nil
  show ?case by simp
next
  case (Cons data rest)
  let ?r = "ctrl_transfer_out env tr dev 0x40 52 i (Some data)"
  obtain r' evs' where
    "send_accessory_information env dev (i + 1) rest (tr @ [EvCtrlOut dev 0x40 52 i (Some data) ?r])
       = (r', (tr @ [EvCtrlOut dev 0x40 52 i (Some data) ?r]) @ evs')"
    using Cons.IH by blast
  then show ?case by (auto simp: Let_def split: sum.splits)
qed

lemma send_first:
  "\<exists>r evs. send_accessory_information env dev i (data # rest) tr =
     (r, tr @ [EvCtrlOut dev 0x40 52 i (Some data)
                 (ctrl_transfer_out env tr dev 0x40 52 i (Some data))] @ evs)"
proof -
  let ?r = "ctrl_transfer_out env tr dev 0x40 52 i (Some data)"
  obtain r' evs' where
    "send_accessory_information env dev (i + 1) rest (tr @ [EvCtrlOut dev 0x40 52 i (Some data) ?r])
       = (r', (tr @ [EvCtrlOut dev 0x40 52 i (Some data) ?r]) @ evs')"
    using send_extends by blast
  then show ?thesis by (auto simp: Let_def split: sum.splits)
qed

lemma version_ok_iff:
  "version_ok buf \<longleftrightarrow> length buf = 2 \<and> uint (buf ! 0) + 256 * uint (buf ! 1) = 2"
  by (simp add: version_ok_def byte_or_push_bit)

lemma switch_version_mismatch:
  assumes "ctrl_transfer_in env tr dev 0xc0 51 0 2 = Inr buf" and "\<not> version_ok buf"
  shows "switch_to_accessory env dev infos tr =
           (Inl AssertionError, tr @ [EvCtrlIn dev 0xc0 51 0 2 (Inr buf)])"
  using assms by (simp add: switch_to_accessory_def)

lemma switch_version_ok:
  assumes "ctrl_transfer_in env tr dev 0xc0 51 0 2 = Inr buf" and "version_ok buf"
  shows "\<exists>r evs. switch_to_accessory env dev (data # rest) tr =
           (r, tr @ [EvCtrlIn dev 0xc0 51 0 2 (Inr buf),
                     EvCtrlOut dev 0x40 52 0 (Some data)
                       (ctrl_transfer_out env (tr @ [EvCtrlIn dev 0xc0 51 0 2 (Inr buf)])
                          dev 0x40 52 0 (Some data))] @ evs)"
proof -
  let ?tr1 = "tr @ [EvCtrlIn dev 0xc0 51 0 2 (Inr buf)]"
  obtain r evs where s: "send_accessory_information env dev 0 (data # rest) ?tr1 =
     (r, ?tr1 @ [EvCtrlOut dev 0x40 52 0 (Some data)
                 (ctrl_transfer_out env ?tr1 dev 0x40 52 0 (Some data))] @ evs)"
    using send_first by blast
  show ?thesis
    using assms s
    by (cases r) (auto simp: switch_to_accessory_def Let_def split: sum.splits)
qed

text \<open>
  Claim C4. When the first detection gives a device that is not configured, the
  negotiator reads the protocol version with a control transfer of request 51 and length
  2. Unless two bytes came back and their little-endian value is 2, it fails the
  assertion at once: the control read is the last event, so no accessory information is
  sent. When the value is 2, the next event is the control write of request 52 and index 0
  that carries the manufacturer, and the negotiator returns.
\<close>

theorem version_gate:
  assumes "detectDevice env self 5 tr = Some (Inr (dev, False), tr1)"
    and "ctrl_transfer_in env tr1 dev 0xc0 51 0 2 = Inr buf"
  shows "(\<not> (length buf = 2 \<and> uint (buf ! 0) + 256 * uint (buf ! 1) = 2) \<longrightarrow>
            configureAndOpenDevice env self manufacturer model description version uri serial tr
              = Some (Inl AssertionError, tr1 @ [EvCtrlIn dev 0xc0 51 0 2 (Inr buf)]))
       \<and> (length buf = 2 \<and> uint (buf ! 0) + 256 * uint (buf ! 1) = 2 \<longrightarrow>
            (\<exists>r evs.
               configureAndOpenDevice env self manufacturer model description version uri serial tr
                 = Some (r, tr1 @ [EvCtrlIn dev 0xc0 51 0 2 (Inr buf),
                                   EvCtrlOut dev 0x40 52 0 (Some manufacturer)
                                     (ctrl_transfer_out env
                                        (tr1 @ [EvCtrlIn dev 0xc0 51 0 2 (Inr buf)])
                                        dev 0x40 52 0 (Some manufacturer))] @ evs)))"
proof (intro conjI impI)
  assume "\<not> (length buf = 2 \<and> uint (buf ! 0) + 256 * uint (buf ! 1) = 2)"
  then have "\<not> version_ok buf" by (simp add: version_ok_iff)
  from switch_version_mismatch [OF assms(2) this] assms(1)
  show "configureAndOpenDevice env self manufacturer model description version uri serial tr
          = Some (Inl AssertionError, tr1 @ [EvCtrlIn dev 0xc0 51 0 2 (Inr buf)])"
    by (simp add: configureAndOpenDevice_def)
next
  let ?pre = "[EvCtrlIn dev 0xc0 51 0 2 (Inr buf),
               EvCtrlOut dev 0x40 52 0 (Some manufacturer)
                 (ctrl_transfer_out env (tr1 @ [EvCtrlIn dev 0xc0 51 0 2 (Inr buf)])
                    dev 0x40 52 0 (Some manufacturer))]"
  assume "length buf = 2 \<and> uint (buf ! 0) + 256 * uint (buf ! 1) = 2"
  then have "version_ok buf" by (simp add: version_ok_iff)
  from switch_version_ok [OF assms(2) this]
  obtain r evs where s:
    "switch_to_accessory env dev [manufacturer, model, description, version, uri, serial] tr1
       = (r, tr1 @ ?pre @ evs)"
    by blast
  show "\<exists>r evs.
          configureAndOpenDevice env self manufacturer model description version uri serial tr
            = Some (r, tr1 @ ?pre @ evs)"
  proof (cases r)
    case (Inl e)
    with s assms(1) show ?thesis by (simp add: configureAndOpenDevice_def)
  next
    case (Inr u)
    obtain r' evs' where
      "wait_for_configured env self 5 (tr1 @ ?pre @ evs) = Some (r', (tr1 @ ?pre @ evs) @ evs')"
      using wait_returns by blast
    with Inr s assms(1) show ?thesis by (simp add: configureAndOpenDevice_def)
  qed
qed

theorem version_gate_witness:
  "configureAndOpenDevice (nexus4_usb\<lparr>ctrl_transfer_in := (\<lambda>tr dev rt rq i n. Inr [1, 0])\<rparr>)
     nexus4_unopened ''AoabManufacturer'' ''AoabModel'' ''AoabDescription'' ''1''
     ''https://github.com/chris-blay/android-open-accessory-bridge'' ''AoabSerial'' []
   = Some (Inl AssertionError,
           [EvFind 0x18d1 0x4ee2 (Some (Device 1)), EvFind 0x18d1 0x2d01 None,
            EvCtrlIn (Device 1) 0xc0 51 0 2 (Inr [1, 0])])
   \<and> (\<exists>r evs.
        configureAndOpenDevice nexus4_usb
          nexus4_unopened ''AoabManufacturer'' ''AoabModel'' ''AoabDescription'' ''1''
          ''https://github.com/chris-blay/android-open-accessory-bridge'' ''AoabSerial'' []
        = Some (r,
                [EvFind 0x18d1 0x4ee2 (Some (Device 1)), EvFind 0x18d1 0x2d01 None,
                 EvCtrlIn (Device 1) 0xc0 51 0 2 (Inr [2, 0]),
                 EvCtrlOut (Device 1) 0x40 52 0 (Some ''AoabManufacturer'') (Inr 16)] @ evs))"
proof -
  let ?old = "nexus4_usb\<lparr>ctrl_transfer_in := (\<lambda>tr dev rt rq i n. Inr [1, 0])\<rparr>"
  let ?tr1 = "[EvFind 0x18d1 0x4ee2 (Some (Device 1)), EvFind 0x18d1 0x2d01 None]"
  have d1: "detectDevice ?old nexus4_unopened 5 [] = Some (Inr (Device 1, False), ?tr1)"
    using detect_unconfigured [of ?old "[]" nexus4_unopened "Device 1" 5]
    by (simp add: nexus4_usb_def nexus4_unopened_def)
  have d2: "detectDevice nexus4_usb nexus4_unopened 5 [] = Some (Inr (Device 1, False), ?tr1)"
    using detect_unconfigured [of nexus4_usb "[]" nexus4_unopened "Device 1" 5]
    by (simp add: nexus4_usb_def nexus4_unopened_def)
  have v1: "ctrl_transfer_in ?old ?tr1 (Device 1) 0xc0 51 0 2 = Inr [1, 0]"
    by simp
  have v2: "ctrl_transfer_in nexus4_usb ?tr1 (Device 1) 0xc0 51 0 2 = Inr [2, 0]"
    by (simp add: nexus4_usb_def quiet_usb_def)
  have out: "ctrl_transfer_out nexus4_usb tr dev rt rq i (Some ''AoabManufacturer'') = Inr 16"
    for tr dev rt rq i
    by (simp add: nexus4_usb_def quiet_usb_def)
  show ?thesis
    using version_gate [OF d1 v1, of "''AoabManufacturer''" "''AoabModel''"
        "''AoabDescription''" "''1''"
        "''https://github.com/chris-blay/android-open-accessory-bridge''" "''AoabSerial''"]
      version_gate [OF d2 v2, of "''AoabManufacturer''" "''AoabModel''"
        "''AoabDescription''" "''1''"
        "''https://github.com/chris-blay/android-open-accessory-bridge''" "''AoabSerial''"]
    by (simp add: out)
qed



end
